theory Spec2Isabelle
  imports Main "HOL-Library.Word"
begin

section \<open>The stats task of the orchestrator (internal/orchestrator/taskstats.go)\<close>

subsection \<open>Formatted text\<close>

text \<open>
  The strings that the task builds with package fmt are kept as the list of their pieces,
  in order: the characters that the format string or a \<^verbatim>\<open>%v\<close> contributes as they
  are, and what the verb \<^verbatim>\<open>%q\<close> makes of a string as the piece \<open>Quoted\<close> of that string.
  The quoting itself is done by Go's standard library and is not spelled out.
\<close>

datatype piece = Chars string | Quoted string

type_synonym message = "piece list"

definition lit :: "string \<Rightarrow> message" where
  "lit s = [Chars s]"

definition fmt_q :: "string \<Rightarrow> message" where
  "fmt_q s = [Quoted s]"

subsection \<open>Errors\<close>

text \<open>
  Go errors as values. \<open>ErrStopIteration\<close> is the sentinel of package oplog with which
  a visitor ends an iteration early (its text is never read); \<open>ErrorString\<close> is
  \<^verbatim>\<open>errors.New(msg)\<close>; \<open>WrapError p e\<close> is \<^verbatim>\<open>fmt.Errorf(p + "%w", e)\<close>, an error that
  wraps \<open>e\<close> and whose text is the prefix followed by the text of \<open>e\<close>.
\<close>

datatype error =
    ErrStopIteration
  | ErrorString string
  | WrapError message error

fun error_text :: "error \<Rightarrow> message" where
  "error_text ErrStopIteration = lit ''stop iteration''"
| "error_text (ErrorString m) = lit m"
| "error_text (WrapError p e) = p @ error_text e"

subsection \<open>Protocol messages (package v1), as far as the task reads or writes them\<close>

type_synonym int64 = "64 word"

datatype OperationStatus =
    STATUS_UNKNOWN
  | STATUS_PENDING
  | STATUS_INPROGRESS
  | STATUS_SUCCESS
  | STATUS_WARNING
  | STATUS_ERROR
  | STATUS_SYSTEM_CANCELLED
  | STATUS_USER_CANCELLED

text \<open>
  \<open>BackupProgressEntry.Entry\<close> is a oneof: unset, an intermediate status entry, or the
  terminal summary, of which the task reads \<open>DataAdded\<close> only.
\<close>

datatype BackupProgressEntry =
    Entry_Unset
  | BackupProgressEntry_Status
  | BackupProgressEntry_Summary (DataAdded: int64)

text \<open>The result of restic's stats command, kept abstract as its total size.\<close>

type_synonym RepoStats = int64

text \<open>
  \<open>Operation.Op\<close> is a oneof. A backup carries \<open>LastStatus\<close>, which may be nil; a stats
  operation carries \<open>Stats\<close>, nil until the run has filled it in; every other kind of
  operation (forget, prune, restore, ...) is \<open>Operation_Other\<close>.
\<close>

datatype Operation_Op =
    Op_Unset
  | Operation_OperationBackup "BackupProgressEntry option"
  | Operation_OperationStats "RepoStats option"
  | Operation_Other

text \<open>Times are kept as Unix milliseconds.\<close>

type_synonym Time = int

record Operation =
  PlanId :: string
  RepoId :: string
  SnapshotId :: string
  UnixTimeStartMs :: int
  Status :: OperationStatus
  Op :: Operation_Op
  DisplayMessage :: message

type_synonym RetentionPolicy = nat

record Plan =
  Id :: string
  Repo :: string
  Retention :: "RetentionPolicy option"

subsection \<open>The operation log\<close>

text \<open>
  Modelled from the spec: package oplog (\<open>ForEachByRepo\<close>, \<open>Add\<close>) and package
  indexutil (\<open>CollectLastN\<close>, \<open>Reversed\<close>) are not among the sources. The log is an
  "append-only, per-repository sequence of operation records" that "exposes reverse
  (newest-first) bounded iteration with early-stop signaling and append"; the visitor
  "may return a distinguished stop signal to terminate iteration early without treating
  it as an error". \<open>records\<close> holds the operations of all repositories, oldest first.
  The storage engine may fail: \<open>iterate_fault\<close> is the error an iteration meets, and
  \<open>append_fault\<close> the error an append meets, if any.

  The collector \<^verbatim>\<open>indexutil.CollectLastN(n)\<close> is a parameter of the log: the call, which is
  all the sources have of it, does not tell which entries of the repository's index the
  bound \<open>n\<close> counts. \<open>CollectLastN log n xs\<close> is what the collector keeps of the index
  \<open>xs\<close>, the entries of one repository, oldest first.
\<close>

record OpLog =
  records :: "Operation list"
  CollectLastN :: "nat \<Rightarrow> Operation list \<Rightarrow> Operation list"
  iterate_fault :: "error option"
  append_fault :: "error option"

text \<open>
  A visitor is the Go closure \<^verbatim>\<open>func(op *v1.Operation) error\<close>; the variables it captures
  and assigns are its state \<open>'s\<close>.
\<close>

type_synonym 's visitor = "Operation \<Rightarrow> 's \<Rightarrow> error option \<times> 's"

text \<open>
  Modelled from the spec: \<open>indexutil.Reversed\<close> is not among the sources; the iteration
  is "reverse (newest-first)". It turns what a collector keeps around.
\<close>

definition Reversed :: "('a list \<Rightarrow> 'a list) \<Rightarrow> 'a list \<Rightarrow> 'a list" where
  "Reversed collector xs = rev (collector xs)"

text \<open>
  Modelled from the spec: the loop of \<open>ForEachByRepo\<close> over the collected operations is
  not among the sources. The visitor "receives operations one at a time"; the stop signal
  ends the loop without an error, any other error ends it and is returned.
\<close>

fun forOps :: "'s visitor \<Rightarrow> Operation list \<Rightarrow> 's \<Rightarrow> error option \<times> 's" where
  "forOps do [] s = (None, s)"
| "forOps do (x # xs) s =
     (case do x s of
        (None, s') \<Rightarrow> forOps do xs s'
      | (Some e, s') \<Rightarrow> if e = ErrStopIteration then (None, s') else (Some e, s'))"

definition ForEachByRepo ::
  "OpLog \<Rightarrow> string \<Rightarrow> (Operation list \<Rightarrow> Operation list) \<Rightarrow> 's visitor \<Rightarrow> 's \<Rightarrow> error option \<times> 's"
where
  "ForEachByRepo log repoId collector do s =
     (case iterate_fault log of
        Some e \<Rightarrow> (Some e, s)
      | None \<Rightarrow> forOps do (collector (filter (\<lambda>x. RepoId x = repoId) (records log))) s)"

subsection \<open>The task\<close>

text \<open>
  The two thresholds are package variables that nothing in the file assigns: 10 GiB of
  bytes added, and 100 operations.
\<close>

definition statBytesThreshold :: int64 where
  "statBytesThreshold = 10 * 1024 * 1024 * 1024"

definition statOperationsThreshold :: nat where
  "statOperationsThreshold = 100"

text \<open>
  \<open>StatsTask\<close> with the fields of the embedded \<open>TaskWithOperation\<close> it uses: the
  operation the task has been given (\<open>op\<close>, nil at first). The orchestrator the Go struct
  points to is passed along explicitly.
\<close>

record StatsTask =
  plan :: Plan
  linkSnapshot :: string
  at :: "Time option"
  op :: "Operation option"

definition NewOneoffStatsTask :: "Plan \<Rightarrow> string \<Rightarrow> Time \<Rightarrow> StatsTask" where
  "NewOneoffStatsTask p link t = \<lparr> plan = p, linkSnapshot = link, at = Some t, op = None \<rparr>"

text \<open>
  The closure of \<open>shouldRun\<close>. Its state is the pair of the captured variables
  \<open>(bytesSinceLastStat, howFarBack)\<close>; \<open>bytesSinceLastStat\<close> is an int64 and its addition
  wraps. \<open>howFarBack\<close> is a Go int that is incremented once per settled entry visited, of
  which there are at most \<open>statOperationsThreshold\<close>, so that it does not wrap.
\<close>

definition shouldRun_visit :: "(int64 \<times> nat) visitor" where
  "shouldRun_visit x st =
     (case st of (bytesSinceLastStat, howFarBack) \<Rightarrow>
        if Status x = STATUS_PENDING \<or> Status x = STATUS_INPROGRESS then (None, st)
        else
          (case Op x of
             Operation_OperationStats _ \<Rightarrow>
               (Some ErrStopIteration,
                (if bytesSinceLastStat = - 1 then 0 else bytesSinceLastStat, howFarBack + 1))
           | Operation_OperationBackup (Some (BackupProgressEntry_Summary d)) \<Rightarrow>
               (None, (bytesSinceLastStat + d, howFarBack + 1))
           | _ \<Rightarrow> (None, (bytesSinceLastStat, howFarBack + 1))))"

text \<open>
  \<open>shouldRun\<close> returns the Go pair \<^verbatim>\<open>(bool, error)\<close>: \<open>(False, Some e)\<close> when the
  iteration failed.
\<close>

definition shouldRun :: "StatsTask \<Rightarrow> OpLog \<Rightarrow> bool \<times> error option" where
  "shouldRun t log =
     (case ForEachByRepo log (Repo (plan t))
             (Reversed (CollectLastN log statOperationsThreshold))
             shouldRun_visit (- 1, 0) of
        (Some err, _) \<Rightarrow> (False, Some (WrapError (lit ''iterate oplog: '') err))
      | (None, (bytesSinceLastStat, howFarBack)) \<Rightarrow>
          if howFarBack \<ge> statOperationsThreshold then (True, None)
          else if bytesSinceLastStat = - 1 \<or> statBytesThreshold <s bytesSinceLastStat
          then (True, None)
          else (False, None))"

subsection \<open>The orchestrator and its collaborators\<close>

text \<open>
  Modelled from the spec: the repository accessor (\<open>Orchestrator.GetRepo\<close>, the handle's
  \<open>Stats\<close> and \<open>Config\<close>) is not among the sources. "Resolves a repository identifier to
  a handle capable of performing the blocking statistics-gathering call and exposing
  repository configuration"; resolution "may fail", and so may the gathering, also when
  the context is cancelled. A handle is its configuration and the outcome its \<open>Stats\<close>
  call has.
\<close>

record RepoConfig =
  repo_id :: string
  repo_uri :: string

record RepoOrchestrator =
  repoConfig :: RepoConfig
  Stats :: "error + RepoStats"

datatype Hook_Condition =
    CONDITION_UNKNOWN
  | CONDITION_ANY_ERROR
  | CONDITION_SNAPSHOT_START
  | CONDITION_SNAPSHOT_END
  | CONDITION_SNAPSHOT_ERROR

record HookVars =
  Task :: message
  Error :: message

text \<open>One call of \<open>hookExecutor.ExecuteHooks\<close>, with its five arguments.\<close>

record HookCall =
  hook_repo :: "RepoConfig option"
  hook_plan :: Plan
  hook_snapshot :: string
  hook_conditions :: "Hook_Condition list"
  hook_vars :: HookVars

text \<open>
  What the task reaches through its \<open>orch\<close> pointer: the operation log, the repositories
  that \<open>GetRepo\<close> resolves, the identifiers \<open>GetRepo\<close> has been asked to resolve so far,
  the hook calls dispatched so far, and the lines logged at error level (each oldest
  first). Debug logging is left out.
\<close>

record Orchestrator =
  OpLog :: OpLog
  repos :: "string \<Rightarrow> error + RepoOrchestrator"
  resolutions :: "string list"
  hooks :: "HookCall list"
  zap_errors :: "message list"

definition GetRepo ::
  "Orchestrator \<Rightarrow> string \<Rightarrow> (error + RepoOrchestrator) \<times> Orchestrator"
where
  "GetRepo orch repoId = (repos orch repoId, orch\<lparr>resolutions := resolutions orch @ [repoId]\<rparr>)"

text \<open>
  Modelled from the spec: \<open>Config\<close> of a handle that could not be resolved. "If
  resolution itself failed, hook dispatch proceeds with an empty/unresolved repo
  configuration": the nil handle has the nil configuration.
\<close>

definition Config :: "RepoOrchestrator option \<Rightarrow> RepoConfig option" where
  "Config repo = (case repo of None \<Rightarrow> None | Some r \<Rightarrow> Some (repoConfig r))"

text \<open>
  Modelled from the spec: the hook dispatcher is not among the sources. It is "invoked
  with a configuration, a plan, an optional snapshot linkage, a set of trigger conditions,
  and contextual variables", "fire-and-forget from this core's perspective but called
  synchronously". The call is recorded.
\<close>

definition ExecuteHooks ::
  "Orchestrator \<Rightarrow> RepoConfig option \<Rightarrow> Plan \<Rightarrow> string \<Rightarrow> Hook_Condition list \<Rightarrow> HookVars
     \<Rightarrow> Orchestrator"
where
  "ExecuteHooks orch cfg p snap conds vars =
     orch\<lparr>hooks := hooks orch @
       [\<lparr>hook_repo = cfg, hook_plan = p, hook_snapshot = snap, hook_conditions = conds,
         hook_vars = vars\<rparr>]\<rparr>"

definition Errorf :: "Orchestrator \<Rightarrow> message \<Rightarrow> Orchestrator" where
  "Errorf orch line = orch\<lparr>zap_errors := zap_errors orch @ [line]\<rparr>"

subsection \<open>The name of the task\<close>

definition Name :: "StatsTask \<Rightarrow> message" where
  "Name t = lit ''stats for plan '' @ fmt_q (Id (plan t))"

text \<open>
  Modelled from the spec: \<open>timeToUnixMillis\<close> is not among the sources; the operation's
  "start time = consumed instant". With times kept as Unix milliseconds it is the
  identity.
\<close>

definition timeToUnixMillis :: "Time \<Rightarrow> int" where
  "timeToUnixMillis t = t"

subsection \<open>The embedded TaskWithOperation\<close>

text \<open>
  Modelled from the spec: \<open>setOperation\<close> is not among the sources. The new operation is
  "handed to the OperationLog for persistence" (\<open>Append(operation) -> error\<close>); when that
  succeeds the task holds the persisted operation.
\<close>

definition Add :: "OpLog \<Rightarrow> Operation \<Rightarrow> error option \<times> OpLog" where
  "Add log x =
     (case append_fault log of
        Some e \<Rightarrow> (Some e, log)
      | None \<Rightarrow> (None, log\<lparr>records := records log @ [x]\<rparr>))"

definition setOperation ::
  "StatsTask \<Rightarrow> Orchestrator \<Rightarrow> Operation \<Rightarrow> error option \<times> StatsTask \<times> Orchestrator"
where
  "setOperation t orch x =
     (case Add (OpLog orch) x of
        (Some e, log') \<Rightarrow> (Some e, t, orch\<lparr>OpLog := log'\<rparr>)
      | (None, log') \<Rightarrow> (None, t\<lparr>op := Some x\<rparr>, orch\<lparr>OpLog := log'\<rparr>))"

text \<open>
  Modelled from the spec: \<open>runWithOpAndContext\<close> is not among the sources. The operation
  is "transitioned to IN_PROGRESS/SUCCESS/ERROR by the execution step": the run wrapper
  runs the action on the task's operation, "signals SUCCESS" when the action returns no
  error and "signals ERROR with the failure's message" otherwise, and returns what the
  action returned. A task that holds no operation has nothing to run the action on: the
  wrapper fails without running it.
\<close>

definition runWithOpAndContext ::
  "StatsTask \<Rightarrow> Orchestrator
     \<Rightarrow> (Operation \<Rightarrow> Orchestrator \<Rightarrow> error option \<times> Operation \<times> Orchestrator)
     \<Rightarrow> error option \<times> StatsTask \<times> Orchestrator"
where
  "runWithOpAndContext t orch do =
     (case op t of
        None \<Rightarrow> (Some (ErrorString ''task has no operation''), t, orch)
      | Some x \<Rightarrow>
          (case do (x\<lparr>Status := STATUS_INPROGRESS\<rparr>) orch of
             (Some err, x', orch') \<Rightarrow>
               (Some err,
                t\<lparr>op := Some (x'\<lparr>Status := STATUS_ERROR, DisplayMessage := error_text err\<rparr>)\<rparr>,
                orch')
           | (None, x', orch') \<Rightarrow>
               (None, t\<lparr>op := Some (x'\<lparr>Status := STATUS_SUCCESS\<rparr>)\<rparr>, orch')))"

subsection \<open>Next and Run\<close>

definition Next :: "Time \<Rightarrow> StatsTask \<Rightarrow> Orchestrator \<Rightarrow> Time option \<times> StatsTask \<times> Orchestrator"
where
  "Next now t orch =
     (case at t of
        None \<Rightarrow> (None, t, orch)
      | Some ret \<Rightarrow>
          (let t1 = t\<lparr>at := None\<rparr>;
               r = shouldRun t1 (OpLog orch);
               orch1 = (case snd r of
                          Some err \<Rightarrow>
                            Errorf orch (lit ''task '' @ Name t1 @
                              lit '' failed to check if it should run: '' @ error_text err)
                        | None \<Rightarrow> orch)
           in if \<not> fst r then (None, t1, orch1)
              else
                (case setOperation t1 orch1
                        \<lparr>PlanId = Id (plan t1), RepoId = Repo (plan t1),
                         SnapshotId = linkSnapshot t1,
                         UnixTimeStartMs = timeToUnixMillis ret,
                         Status = STATUS_PENDING,
                         Op = Operation_OperationStats None,
                         DisplayMessage = []\<rparr> of
                   (Some err, t2, orch2) \<Rightarrow>
                     (None, t2,
                      Errorf orch2 (lit ''task '' @ Name t2 @
                        lit '' failed to add operation to oplog: '' @ error_text err))
                 | (None, t2, orch2) \<Rightarrow> (Some ret, t2, orch2))))"

text \<open>The closure that \<open>Run\<close> hands to the run wrapper.\<close>

definition Run_action ::
  "StatsTask \<Rightarrow> Operation \<Rightarrow> Orchestrator \<Rightarrow> error option \<times> Operation \<times> Orchestrator"
where
  "Run_action t x orch =
     (case GetRepo orch (Repo (plan t)) of
        (Inl err, orch') \<Rightarrow>
          (Some (WrapError (lit ''get repo '' @ fmt_q (Repo (plan t)) @ lit '': '') err), x,
           orch')
      | (Inr repo, orch') \<Rightarrow>
          (case Stats repo of
             Inl err \<Rightarrow> (Some (WrapError (lit ''get stats: '') err), x, orch')
           | Inr stats \<Rightarrow> (None, x\<lparr>Op := Operation_OperationStats (Some stats)\<rparr>, orch')))"

definition Run :: "StatsTask \<Rightarrow> Orchestrator \<Rightarrow> error option \<times> StatsTask \<times> Orchestrator" where
  "Run t orch =
     (if Retention (plan t) = None
      then (Some (ErrorString ''plan does not have a retention policy''), t, orch)
      else
        (case runWithOpAndContext t orch (Run_action t) of
           (Some err, t', orch') \<Rightarrow>
             (case GetRepo orch' (Repo (plan t')) of
                (r, orch'') \<Rightarrow>
                  (let repo = (case r of Inl _ \<Rightarrow> None | Inr h \<Rightarrow> Some h)
                   in (Some err, t',
                       ExecuteHooks orch'' (Config repo) (plan t') [] [CONDITION_ANY_ERROR]
                         \<lparr>Task = Name t', Error = error_text err\<rparr>)))
         | (None, t', orch') \<Rightarrow> (None, t', orch')))"

section \<open>What the scan computes, said on the log\<close>

text \<open>
  The notions in which the properties of the decision are stated. An entry is settled
  when it is neither pending nor in progress; \<open>isStats\<close> and \<open>dataAdded\<close> read the
  payload as the two type tests of the closure do.
\<close>

definition settled :: "Operation \<Rightarrow> bool" where
  "settled x = (Status x \<noteq> STATUS_PENDING \<and> Status x \<noteq> STATUS_INPROGRESS)"

definition isStats :: "Operation \<Rightarrow> bool" where
  "isStats x = (case Op x of Operation_OperationStats _ \<Rightarrow> True | _ \<Rightarrow> False)"

definition dataAdded :: "Operation \<Rightarrow> int64" where
  "dataAdded x =
     (case Op x of
        Operation_OperationBackup (Some (BackupProgressEntry_Summary d)) \<Rightarrow> d
      | _ \<Rightarrow> 0)"

text \<open>
  The entries of one repository, oldest first, and the window: the entries that the log
  hands to the visitor of \<open>shouldRun\<close>, newest first, whatever the collector of the log is.
\<close>

definition repoIndex :: "OpLog \<Rightarrow> string \<Rightarrow> Operation list" where
  "repoIndex log repoId = filter (\<lambda>x. RepoId x = repoId) (records log)"

definition window :: "OpLog \<Rightarrow> string \<Rightarrow> Operation list" where
  "window log repoId =
     Reversed (CollectLastN log statOperationsThreshold) (repoIndex log repoId)"

text \<open>
  In a list of entries, newest first: the settled entries newer than the newest settled
  stats operation (the baseline), whether there is a baseline, the number of settled
  entries up to and including the baseline, and the value of the accumulator, which
  starts from the sentinel \<open>- 1\<close> and is set to 0 at the baseline if it still holds the
  sentinel there.
\<close>

definition sinceBaseline :: "Operation list \<Rightarrow> Operation list" where
  "sinceBaseline w = takeWhile (\<lambda>x. \<not> isStats x) (filter settled w)"

definition baselineFound :: "Operation list \<Rightarrow> bool" where
  "baselineFound w = list_ex isStats (filter settled w)"

definition scanned :: "Operation list \<Rightarrow> nat" where
  "scanned w = length (sinceBaseline w) + (if baselineFound w then 1 else 0)"

definition accumulated :: "Operation list \<Rightarrow> int64" where
  "accumulated w =
     (let s = - 1 + sum_list (map dataAdded (sinceBaseline w))
      in if baselineFound w \<and> s = - 1 then 0 else s)"

text \<open>
  The bytes that the backup summaries newer than the baseline add, as an integer that
  does not wrap.
\<close>

definition bytesAdded :: "Operation list \<Rightarrow> int" where
  "bytesAdded w = (\<Sum>x\<leftarrow>sinceBaseline w. sint (dataAdded x))"

text \<open>
  Modelled from the spec: the collector \<open>indexutil.CollectLastN\<close> is not among the
  sources. The scan is "bounded to the most recent K entries (default K = 100) that are
  not themselves unsettled (PENDING/IN_PROGRESS entries are skipped and do not consume
  the bound)": of the index, oldest first, the collector keeps the last \<open>n\<close> settled
  entries.
\<close>

definition lastSettled :: "nat \<Rightarrow> Operation list \<Rightarrow> Operation list" where
  "lastSettled n xs = drop (length (filter settled xs) - n) (filter settled xs)"


text \<open>
  The operation that \<open>Next\<close> builds for a task whose scheduled instant is \<open>ret\<close>, and the
  hook call that \<open>Run\<close> makes for an error.
\<close>

definition newStatsOperation :: "StatsTask \<Rightarrow> Time \<Rightarrow> Operation" where
  "newStatsOperation t ret =
     \<lparr>PlanId = Id (plan t), RepoId = Repo (plan t), SnapshotId = linkSnapshot t,
      UnixTimeStartMs = timeToUnixMillis ret, Status = STATUS_PENDING,
      Op = Operation_OperationStats None, DisplayMessage = []\<rparr>"

definition hookCall :: "RepoConfig option \<Rightarrow> StatsTask \<Rightarrow> error \<Rightarrow> HookCall" where
  "hookCall cfg t err =
     \<lparr>hook_repo = cfg, hook_plan = plan t, hook_snapshot = [],
      hook_conditions = [CONDITION_ANY_ERROR],
      hook_vars = \<lparr>Task = Name t, Error = error_text err\<rparr>\<rparr>"

section \<open>Concrete plans, tasks and logs\<close>

definition examplePlan :: Plan where
  "examplePlan = \<lparr>Id = ''p1'', Repo = ''r1'', Retention = Some 1\<rparr>"

definition exampleTask :: StatsTask where
  "exampleTask = NewOneoffStatsTask examplePlan [] 1000"

definition mkOp :: "OperationStatus \<Rightarrow> Operation_Op \<Rightarrow> Operation" where
  "mkOp st payload =
     \<lparr>PlanId = ''p1'', RepoId = ''r1'', SnapshotId = [], UnixTimeStartMs = 0, Status = st,
      Op = payload, DisplayMessage = []\<rparr>"

definition backupOp :: "int64 \<Rightarrow> Operation" where
  "backupOp d =
     mkOp STATUS_SUCCESS (Operation_OperationBackup (Some (BackupProgressEntry_Summary d)))"

definition statsOp :: Operation where
  "statsOp = mkOp STATUS_SUCCESS (Operation_OperationStats (Some 0))"


text \<open>A log that does not fail, with the collector as the specification words it.\<close>

definition logOf :: "Operation list \<Rightarrow> OpLog" where
  "logOf xs =
     \<lparr>records = xs, CollectLastN = lastSettled, iterate_fault = None, append_fault = None\<rparr>"

definition GiB :: int64 where
  "GiB = 1024 * 1024 * 1024"

definition MiB :: int64 where
  "MiB = 1024 * 1024"

definition exampleRepo :: RepoOrchestrator where
  "exampleRepo = \<lparr>repoConfig = \<lparr>repo_id = ''r1'', repo_uri = ''/srv/r1''\<rparr>, Stats = Inr 42\<rparr>"

definition failingRepo :: RepoOrchestrator where
  "failingRepo = exampleRepo\<lparr>Stats := Inl (ErrorString ''exit status 1'')\<rparr>"

definition orchOf :: "OpLog \<Rightarrow> (string \<Rightarrow> error + RepoOrchestrator) \<Rightarrow> Orchestrator" where
  "orchOf log g = \<lparr>OpLog = log, repos = g, resolutions = [], hooks = [], zap_errors = []\<rparr>"

definition exampleOrch :: "OpLog \<Rightarrow> Orchestrator" where
  "exampleOrch log = orchOf log (\<lambda>_. Inr exampleRepo)"

definition runningTask :: StatsTask where
  "runningTask = exampleTask\<lparr>at := None, op := Some (newStatsOperation exampleTask 1000)\<rparr>"

definition noRetentionTask :: StatsTask where
  "noRetentionTask = runningTask\<lparr>plan := examplePlan\<lparr>Retention := None\<rparr>\<rparr>"

definition unresolvedOrch :: Orchestrator where
  "unresolvedOrch = orchOf (logOf []) (\<lambda>_. Inl (ErrorString ''repo not found''))"

definition failingOrch :: Orchestrator where
  "failingOrch = orchOf (logOf []) (\<lambda>_. Inr failingRepo)"

definition faultyLog :: OpLog where
  "faultyLog = (logOf [])\<lparr>iterate_fault := Some (ErrorString ''bucket closed'')\<rparr>"

definition fullLog :: OpLog where
  "fullLog = (logOf [])\<lparr>append_fault := Some (ErrorString ''disk full'')\<rparr>"

section \<open>The decision\<close>

subsection \<open>The scan\<close>


text \<open>
  The loop, run from any values of the two captured variables: it never fails, the
  counter grows by \<open>scanned\<close>, and the accumulator grows by the bytes of the backups newer
  than the baseline.
\<close>

lemma forOps_shouldRun_visit:
  "forOps shouldRun_visit w (b, n) =
     (None,
      (let s = b + sum_list (map dataAdded (sinceBaseline w))
       in if baselineFound w \<and> s = - 1 then 0 else s),
      n + scanned w)"
proof (induction w arbitrary: b n)
  case Nil
  show ?case by (simp add: sinceBaseline_def baselineFound_def scanned_def)
next
  case (Cons x w)
  show ?case
  proof (cases "settled x")
    case False
    then show ?thesis
      using Cons.IH [of b n]
      by (auto simp add: shouldRun_visit_def settled_def sinceBaseline_def baselineFound_def
          scanned_def)
  next
    case True
    show ?thesis
    proof (cases "isStats x")
      case st: True
      then obtain r where "Op x = Operation_OperationStats r"
        by (auto simp: isStats_def split: Operation_Op.splits)
      with True st show ?thesis
        by (simp add: shouldRun_visit_def settled_def sinceBaseline_def baselineFound_def
            scanned_def)
    next
      case nst: False
      with True show ?thesis
        using Cons.IH [of "b + dataAdded x" "n + 1"]
        by (auto simp add: shouldRun_visit_def settled_def sinceBaseline_def baselineFound_def
            scanned_def dataAdded_def isStats_def Let_def add.assoc
            split: Operation_Op.splits option.splits BackupProgressEntry.splits)
    qed
  qed
qed

lemma shouldRun_eq:
  assumes "iterate_fault log = None"
  shows "shouldRun t log =
     (statOperationsThreshold \<le> scanned (window log (Repo (plan t)))
        \<or> accumulated (window log (Repo (plan t))) = - 1
        \<or> statBytesThreshold <s accumulated (window log (Repo (plan t))), None)"
  using assms
  by (simp add: shouldRun_def ForEachByRepo_def forOps_shouldRun_visit
      window_def repoIndex_def accumulated_def Let_def)

lemma shouldRun_fault:
  assumes "iterate_fault log = Some e"
  shows "shouldRun t log = (False, Some (WrapError (lit ''iterate oplog: '') e))"
  using assms by (simp add: shouldRun_def ForEachByRepo_def)

subsection \<open>The accumulator and the bytes added\<close>

text \<open>
  When no entry adds a negative number of bytes and the bytes add up to less than
  \<open>2 ^ 63\<close>, the int64 sum does not wrap.
\<close>

lemma sint_sum_list_nonneg:
  fixes f :: "'a \<Rightarrow> int64"
  assumes "\<forall>x\<in>set xs. 0 \<le> sint (f x)" and "(\<Sum>x\<leftarrow>xs. sint (f x)) < 2 ^ 63"
  shows "sint (sum_list (map f xs)) = (\<Sum>x\<leftarrow>xs. sint (f x))"
  using assms
proof (induction xs)
  case Nil
  show ?case by simp
next
  case (Cons a xs)
  have nonneg: "0 \<le> (\<Sum>x\<leftarrow>xs. sint (f x))"
    using Cons.prems(1) by (intro sum_list_nonneg) auto
  have a0: "0 \<le> sint (f a)" using Cons.prems(1) by simp
  have lt: "sint (f a) + (\<Sum>x\<leftarrow>xs. sint (f x)) < 2 ^ 63"
    using Cons.prems(2) by simp
  have ih: "sint (sum_list (map f xs)) = (\<Sum>x\<leftarrow>xs. sint (f x))"
    using Cons.IH Cons.prems(1) lt a0 by simp
  have "sint (f a + sum_list (map f xs)) =
          signed_take_bit 63 (sint (f a) + sint (sum_list (map f xs)))"
    by (simp add: sint_word_ariths)
  also have "\<dots> = sint (f a) + (\<Sum>x\<leftarrow>xs. sint (f x))"
    unfolding ih using a0 nonneg lt by (intro signed_take_bit_int_eq_self) simp_all
  finally show ?case by simp
qed

lemma sint_statBytesThreshold: "sint statBytesThreshold = 10737418240"
  by (simp add: statBytesThreshold_def)

lemma accumulated_under_threshold:
  assumes found: "baselineFound w"
    and nonneg: "\<forall>x\<in>set (sinceBaseline w). 0 \<le> sint (dataAdded x)"
    and le: "(\<Sum>x\<leftarrow>sinceBaseline w. sint (dataAdded x)) \<le> 10 * 2 ^ 30"
  shows "accumulated w \<noteq> - 1 \<and> \<not> statBytesThreshold <s accumulated w"
proof -
  let ?S = "\<Sum>x\<leftarrow>sinceBaseline w. sint (dataAdded x)"
  let ?ws = "sum_list (map dataAdded (sinceBaseline w))"
  have S: "sint ?ws = ?S"
    using nonneg le by (intro sint_sum_list_nonneg) simp_all
  have S0: "0 \<le> ?S" using nonneg by (intro sum_list_nonneg) auto
  show ?thesis
  proof (cases "?ws = 0")
    case True
    then show ?thesis using found
      by (simp add: accumulated_def word_sless_alt sint_statBytesThreshold)
  next
    case False
    then have "sint ?ws \<noteq> 0" by (simp add: signed_eq_0_iff)
    then have S1: "1 \<le> ?S" using S S0 by simp
    have "sint (?ws - 1) = signed_take_bit 63 (sint ?ws - 1)"
      by (simp add: sint_word_ariths)
    also have "\<dots> = ?S - 1"
      unfolding S using S1 le by (intro signed_take_bit_int_eq_self) simp_all
    finally have m: "sint (?ws - 1) = ?S - 1" .
    have ne: "?ws - 1 \<noteq> - 1" using False by simp
    have "accumulated w = ?ws - 1"
      using ne by (simp add: accumulated_def Let_def)
    then show ?thesis
      using m le S1 ne by (simp add: word_sless_alt sint_statBytesThreshold)
  qed
qed

text \<open>
  Without wrap the accumulator is one less than the bytes added, unless it is reset at
  the baseline; it keeps the sentinel only when there is no baseline and no byte added.
\<close>

lemma accumulated_no_wrap:
  assumes nonneg: "\<forall>x\<in>set (sinceBaseline w). 0 \<le> sint (dataAdded x)"
    and lt: "bytesAdded w < 2 ^ 63"
  shows "accumulated w = - 1 \<longleftrightarrow> \<not> baselineFound w \<and> bytesAdded w = 0"
    and "statBytesThreshold <s accumulated w \<longleftrightarrow> 10 * 2 ^ 30 + 1 < bytesAdded w"
proof -
  let ?ws = "sum_list (map dataAdded (sinceBaseline w))"
  have S: "sint ?ws = bytesAdded w"
    unfolding bytesAdded_def using nonneg lt [unfolded bytesAdded_def]
    by (rule sint_sum_list_nonneg)
  have S0: "0 \<le> bytesAdded w"
    unfolding bytesAdded_def using nonneg by (intro sum_list_nonneg) auto
  have both: "(accumulated w = - 1 \<longleftrightarrow> \<not> baselineFound w \<and> bytesAdded w = 0)
      \<and> (statBytesThreshold <s accumulated w \<longleftrightarrow> 10 * 2 ^ 30 + 1 < bytesAdded w)"
  proof (cases "?ws = 0")
    case True
    then have "bytesAdded w = 0" using S by simp
    with True show ?thesis
      by (simp add: accumulated_def word_sless_alt sint_statBytesThreshold)
  next
    case False
    then have "sint ?ws \<noteq> 0" by (simp add: signed_eq_0_iff)
    then have S1: "1 \<le> bytesAdded w" using S S0 by simp
    have "sint (?ws - 1) = signed_take_bit 63 (sint ?ws - 1)"
      by (simp add: sint_word_ariths)
    also have "\<dots> = bytesAdded w - 1"
      unfolding S using S1 lt by (intro signed_take_bit_int_eq_self) simp_all
    finally have m: "sint (?ws - 1) = bytesAdded w - 1" .
    have ne: "?ws - 1 \<noteq> - 1" using False by simp
    have "accumulated w = ?ws - 1"
      using ne by (simp add: accumulated_def Let_def)
    then show ?thesis
      using m S1 ne by (simp add: word_sless_alt sint_statBytesThreshold)
  qed
  from both show "accumulated w = - 1 \<longleftrightarrow> \<not> baselineFound w \<and> bytesAdded w = 0"
    by (rule conjunct1)
  from both show "statBytesThreshold <s accumulated w \<longleftrightarrow> 10 * 2 ^ 30 + 1 < bytesAdded w"
    by (rule conjunct2)
qed

subsection \<open>When the decision is true\<close>

text \<open>
  C1. The claim: \<open>shouldRun\<close> is true exactly when the count of settled entries scanned
  reaches 100 without a stats operation ever being found, or no stats operation was found
  in the window (the accumulator still holds the sentinel), or the accumulated bytes
  exceed 10 GiB; an empty log yields true.

  The count test of the code does not ask whether a baseline was found. As amended: when
  the iteration does not fail, \<open>shouldRun\<close> returns no error and is true exactly when the
  number of settled entries scanned, the baseline included when there is one, has reached
  100, or no settled stats operation was found in the window, or the bytes that the
  backup summaries newer than the baseline add exceed 10 GiB; and it is true when the
  window holds no settled entry. This is said of every window in which the count has
  reached 100, and of every other window but these: one without a stats operation in
  which the backups add between 1 byte and 10 GiB, one in which they add 10 GiB and one
  byte, and one in which a summary adds a negative number of bytes or the bytes add up
  to \<open>2 ^ 63\<close> or more. Of these nothing is said.
\<close>

theorem shouldRun_decision:
  assumes "iterate_fault log = None"
    and "scanned (window log (Repo (plan t))) < 100 \<longrightarrow>
           (\<forall>x\<in>set (sinceBaseline (window log (Repo (plan t)))). 0 \<le> sint (dataAdded x))
           \<and> bytesAdded (window log (Repo (plan t))) < 2 ^ 63
           \<and> (\<not> baselineFound (window log (Repo (plan t))) \<longrightarrow>
                 bytesAdded (window log (Repo (plan t))) = 0
                 \<or> 10 * 2 ^ 30 < bytesAdded (window log (Repo (plan t))))
           \<and> bytesAdded (window log (Repo (plan t))) \<noteq> 10 * 2 ^ 30 + 1"
  shows "shouldRun t log =
           (100 \<le> scanned (window log (Repo (plan t)))
              \<or> \<not> baselineFound (window log (Repo (plan t)))
              \<or> 10 * 2 ^ 30 < bytesAdded (window log (Repo (plan t))), None)
         \<and> (filter settled (window log (Repo (plan t))) = [] \<longrightarrow>
               shouldRun t log = (True, None))"
proof (intro conjI impI)
  let ?W = "window log (Repo (plan t))"
  note eq = shouldRun_eq [OF assms(1), of t]
  show "shouldRun t log =
          (100 \<le> scanned ?W \<or> \<not> baselineFound ?W \<or> 10 * 2 ^ 30 < bytesAdded ?W, None)"
  proof (cases "scanned ?W < 100")
    case False
    then show ?thesis
      unfolding eq by (simp add: statOperationsThreshold_def)
  next
    case True
    with assms(2) have nonneg: "\<forall>x\<in>set (sinceBaseline ?W). 0 \<le> sint (dataAdded x)"
      and lt: "bytesAdded ?W < 2 ^ 63"
      and nb: "\<not> baselineFound ?W \<Longrightarrow> bytesAdded ?W = 0 \<or> 10 * 2 ^ 30 < bytesAdded ?W"
      and ne: "bytesAdded ?W \<noteq> 10 * 2 ^ 30 + 1"
      by blast+
    note acc = accumulated_no_wrap [OF nonneg lt]
    show ?thesis
      unfolding eq acc using True nb ne
      by (auto simp add: statOperationsThreshold_def)
  qed
next
  let ?W = "window log (Repo (plan t))"
  assume "filter settled ?W = []"
  then have "accumulated ?W = - 1"
    by (simp add: accumulated_def sinceBaseline_def baselineFound_def)
  then show "shouldRun t log = (True, None)"
    unfolding shouldRun_eq [OF assms(1), of t] by simp
qed

text \<open>
  Scenario A of the specification, 150 backups of 1 MiB and no stats operation; three
  backups of 4 GiB that are newer than a stats operation; and a log without entries.
\<close>

theorem shouldRun_decision_witness:
  "iterate_fault (logOf (replicate 150 (backupOp MiB))) = None
   \<and> scanned (window (logOf (replicate 150 (backupOp MiB))) ''r1'') = 100
   \<and> shouldRun exampleTask (logOf (replicate 150 (backupOp MiB))) = (True, None)
   \<and> iterate_fault (logOf (statsOp # replicate 3 (backupOp (4 * GiB)))) = None
   \<and> scanned (window (logOf (statsOp # replicate 3 (backupOp (4 * GiB)))) ''r1'') = 4
   \<and> baselineFound (window (logOf (statsOp # replicate 3 (backupOp (4 * GiB)))) ''r1'')
   \<and> bytesAdded (window (logOf (statsOp # replicate 3 (backupOp (4 * GiB)))) ''r1'')
        = 12 * 2 ^ 30
   \<and> shouldRun exampleTask (logOf (statsOp # replicate 3 (backupOp (4 * GiB)))) = (True, None)
   \<and> iterate_fault (logOf []) = None
   \<and> filter settled (window (logOf []) ''r1'') = []
   \<and> shouldRun exampleTask (logOf []) = (True, None)"
proof -
  let ?A = "logOf (replicate 150 (backupOp MiB))"
  let ?B = "logOf (statsOp # replicate 3 (backupOp (4 * GiB)))"
  let ?E = "logOf []"
  have r: "Repo (plan exampleTask) = ''r1''"
    by (simp add: exampleTask_def NewOneoffStatsTask_def examplePlan_def)
  have fa: "iterate_fault ?A = None" and fb: "iterate_fault ?B = None"
    and fe: "iterate_fault ?E = None"
    by (simp_all add: logOf_def)
  have a1: "scanned (window ?A ''r1'') = 100"
    by code_simp
  have b1: "scanned (window ?B ''r1'') = 4"
    and b2: "baselineFound (window ?B ''r1'')"
    and b3: "bytesAdded (window ?B ''r1'') = 12 * 2 ^ 30"
    and b4: "\<forall>x\<in>set (sinceBaseline (window ?B ''r1'')). 0 \<le> sint (dataAdded x)"
    by code_simp+
  have e1: "filter settled (window ?E ''r1'') = []"
    and e2: "scanned (window ?E ''r1'') = 0"
    and e3: "bytesAdded (window ?E ''r1'') = 0"
    and e4: "\<forall>x\<in>set (sinceBaseline (window ?E ''r1'')). 0 \<le> sint (dataAdded x)"
    and e5: "\<not> baselineFound (window ?E ''r1'')"
    by code_simp+
  have wa: "shouldRun exampleTask ?A = (True, None)"
    using shouldRun_decision [of ?A exampleTask] fa a1 unfolding r by simp
  have wb: "shouldRun exampleTask ?B = (True, None)"
    using shouldRun_decision [of ?B exampleTask] fb b1 b2 b3 b4 unfolding r by simp
  have we: "shouldRun exampleTask ?E = (True, None)"
    using shouldRun_decision [of ?E exampleTask] fe e1 e2 e3 e4 e5 unfolding r by simp
  from fa a1 wa fb b1 b2 b3 wb fe e1 we show ?thesis by (intro conjI)
qed

text \<open>
  C1 as stated fails. On a log of a stats operation followed by 99 newer backups without
  bytes the baseline is found and the accumulator is 0, neither the sentinel nor above
  the threshold, and yet the count of 100 makes the decision true. On a log of a single
  backup of 1 GiB no stats operation is found, but the accumulator has left the sentinel
  and the decision is false. On a log of a stats operation and one newer backup of 10 GiB
  and one byte the bytes added exceed the threshold, but the accumulator, which started
  from \<open>- 1\<close>, does not, and the decision is false.
\<close>

theorem shouldRun_decision_counterexample:
  "shouldRun exampleTask (logOf (statsOp # replicate 99 (backupOp 0))) = (True, None)
   \<and> baselineFound (window (logOf (statsOp # replicate 99 (backupOp 0))) ''r1'')
   \<and> accumulated (window (logOf (statsOp # replicate 99 (backupOp 0))) ''r1'') = 0
   \<and> scanned (window (logOf (statsOp # replicate 99 (backupOp 0))) ''r1'') = 100
   \<and> shouldRun exampleTask (logOf [backupOp GiB]) = (False, None)
   \<and> \<not> baselineFound (window (logOf [backupOp GiB]) ''r1'')
   \<and> accumulated (window (logOf [backupOp GiB]) ''r1'') = GiB - 1
   \<and> shouldRun exampleTask (logOf [statsOp, backupOp (10 * GiB + 1)]) = (False, None)
   \<and> bytesAdded (window (logOf [statsOp, backupOp (10 * GiB + 1)]) ''r1'') = 10 * 2 ^ 30 + 1
   \<and> accumulated (window (logOf [statsOp, backupOp (10 * GiB + 1)]) ''r1'') = 10 * GiB"
  by code_simp

subsection \<open>Bytes below the threshold\<close>

text \<open>
  C2. The claim: when fewer than 100 settled entries precede the most recent stats
  operation (or exist, when there is none), the bytes added after the baseline are at
  most 10 GiB, and fewer than 100 settled entries were scanned without a baseline, then
  \<open>shouldRun\<close> is false.

  As amended: when the iteration does not fail, the window holds a settled stats
  operation, fewer than 99 settled entries are newer than the newest of them (so that
  the count, which includes the baseline, stays below 100), no backup summary among these
  adds a negative number of bytes and together they add at most 10 GiB, then \<open>shouldRun\<close>
  is false and returns no error. Nothing is said of a window without a stats operation.
\<close>

theorem shouldRun_false_below_thresholds:
  assumes "iterate_fault log = None"
    and "baselineFound (window log (Repo (plan t)))"
    and "length (sinceBaseline (window log (Repo (plan t)))) < 99"
    and "\<forall>x\<in>set (sinceBaseline (window log (Repo (plan t)))). 0 \<le> sint (dataAdded x)"
    and "(\<Sum>x\<leftarrow>sinceBaseline (window log (Repo (plan t))). sint (dataAdded x)) \<le> 10 * 2 ^ 30"
  shows "shouldRun t log = (False, None)"
proof -
  have "scanned (window log (Repo (plan t))) < 100"
    using assms(2,3) by (simp add: scanned_def)
  moreover note accumulated_under_threshold [OF assms(2,4,5)]
  ultimately show ?thesis
    using shouldRun_eq [OF assms(1), of t] by (simp add: statOperationsThreshold_def)
qed

text \<open>Scenario C of the specification: two backups of 1 GiB, newer than a stats operation.\<close>

theorem shouldRun_false_below_thresholds_witness:
  "iterate_fault (logOf (statsOp # replicate 2 (backupOp GiB))) = None
   \<and> baselineFound (window (logOf (statsOp # replicate 2 (backupOp GiB))) ''r1'')
   \<and> length (sinceBaseline (window (logOf (statsOp # replicate 2 (backupOp GiB))) ''r1'')) = 2
   \<and> (\<Sum>x\<leftarrow>sinceBaseline (window (logOf (statsOp # replicate 2 (backupOp GiB))) ''r1'').
         sint (dataAdded x)) = 2 * 2 ^ 30
   \<and> shouldRun exampleTask (logOf (statsOp # replicate 2 (backupOp GiB))) = (False, None)"
proof -
  let ?L = "logOf (statsOp # replicate 2 (backupOp GiB))"
  have r: "Repo (plan exampleTask) = ''r1''"
    by (simp add: exampleTask_def NewOneoffStatsTask_def examplePlan_def)
  have h1: "iterate_fault ?L = None" by (simp add: logOf_def)
  have h2: "baselineFound (window ?L ''r1'')" by code_simp
  have h3: "length (sinceBaseline (window ?L ''r1'')) = 2" by code_simp
  have h4: "\<forall>x\<in>set (sinceBaseline (window ?L ''r1'')). 0 \<le> sint (dataAdded x)" by code_simp
  have h5: "(\<Sum>x\<leftarrow>sinceBaseline (window ?L ''r1''). sint (dataAdded x)) = 2 * 2 ^ 30"
    by code_simp
  have "shouldRun exampleTask ?L = (False, None)"
    using h1 h2 h3 h4 h5 by (intro shouldRun_false_below_thresholds) (simp_all add: r)
  with h1 h2 h3 h5 show ?thesis by blast
qed

text \<open>
  C2 as stated fails: a log of one settled backup that added no bytes has no stats
  operation, one settled entry and no bytes added, and the decision is true.
\<close>

theorem shouldRun_false_below_thresholds_counterexample:
  "shouldRun exampleTask (logOf [backupOp 0]) = (True, None)
   \<and> \<not> list_ex isStats (records (logOf [backupOp 0]))
   \<and> length (filter settled (records (logOf [backupOp 0]))) = 1
   \<and> sum_list (map dataAdded (records (logOf [backupOp 0]))) = 0"
  by code_simp

subsection \<open>The baseline ends the scan\<close>

lemma stats_newest:
  assumes "filter settled w = s # older" and "isStats s"
  shows "sinceBaseline w = []" and "baselineFound w"
  using assms by (simp_all add: sinceBaseline_def baselineFound_def)

lemma stats_after_backups:
  assumes "filter settled w = bs @ s # older" and "isStats s"
    and "\<forall>b\<in>set bs. Op b = Operation_OperationBackup (Some (BackupProgressEntry_Summary d))"
  shows "sinceBaseline w = bs" and "baselineFound w"
    and "sum_list (map dataAdded bs) = of_nat (length bs) * d"
proof -
  have nst: "\<forall>b\<in>set bs. \<not> isStats b"
    using assms(3) by (simp add: isStats_def)
  show "sinceBaseline w = bs"
    using assms(1,2) nst by (simp add: sinceBaseline_def takeWhile_tail [symmetric] takeWhile_append)
  show "baselineFound w"
    using assms(1,2) by (simp add: baselineFound_def)
  have "map dataAdded bs = map (\<lambda>_. d) bs"
    using assms(3) by (intro map_cong) (simp_all add: dataAdded_def)
  then show "sum_list (map dataAdded bs) = of_nat (length bs) * d"
    by (simp add: map_replicate_const sum_list_replicate)
qed

text \<open>
  C3. The claim: when the most recent settled entry is a stats operation and the next
  five older settled entries are backups of 3 GiB each, the scan accumulates 15 GiB and
  \<open>shouldRun\<close> is true.

  As amended: when the most recent settled entry of the window is a stats operation, the
  scan ends there: whatever the older entries are, the accumulator is 0 and \<open>shouldRun\<close>
  is false. The bytes that count are those of the backups newer than the stats operation:
  when the five most recent settled entries are backups of 3 GiB each and the next older
  one is a stats operation, the accumulator exceeds the threshold of 10 GiB and
  \<open>shouldRun\<close> is true.
\<close>

theorem scan_stops_at_baseline:
  assumes "iterate_fault log = None"
  shows "(\<forall>s older. filter settled (window log (Repo (plan t))) = s # older \<and> isStats s
            \<longrightarrow> accumulated (window log (Repo (plan t))) = 0
                \<and> shouldRun t log = (False, None))
       \<and> (\<forall>bs s older.
            filter settled (window log (Repo (plan t))) = bs @ s # older \<and> isStats s
            \<and> length bs = 5
            \<and> (\<forall>b\<in>set bs.
                  Op b = Operation_OperationBackup (Some (BackupProgressEntry_Summary (3 * 2 ^ 30))))
            \<longrightarrow> 10 * 2 ^ 30 <s accumulated (window log (Repo (plan t)))
                \<and> shouldRun t log = (True, None))"
proof (intro conjI allI impI)
  fix s older
  assume h: "filter settled (window log (Repo (plan t))) = s # older \<and> isStats s"
  then have sb: "sinceBaseline (window log (Repo (plan t))) = []"
    and bf: "baselineFound (window log (Repo (plan t)))"
    using stats_newest by blast+
  from sb bf show a: "accumulated (window log (Repo (plan t))) = 0"
    by (simp add: accumulated_def)
  have "scanned (window log (Repo (plan t))) = 1"
    using sb bf by (simp add: scanned_def)
  then show "shouldRun t log = (False, None)"
    using shouldRun_eq [OF assms, of t] a
    by (simp add: statOperationsThreshold_def word_sless_alt sint_statBytesThreshold)
next
  fix bs s older
  assume h: "filter settled (window log (Repo (plan t))) = bs @ s # older \<and> isStats s
            \<and> length bs = 5
            \<and> (\<forall>b\<in>set bs.
                  Op b = Operation_OperationBackup (Some (BackupProgressEntry_Summary (3 * 2 ^ 30))))"
  then have sb: "sinceBaseline (window log (Repo (plan t))) = bs"
    and bf: "baselineFound (window log (Repo (plan t)))"
    and sm: "sum_list (map dataAdded bs) = of_nat (length bs) * (3 * 2 ^ 30)"
    using stats_after_backups [of "window log (Repo (plan t))" bs s older "3 * 2 ^ 30"] by blast+
  from h have "length bs = 5" by blast
  with sm have sm5: "sum_list (map dataAdded bs) = 15 * 2 ^ 30" by simp
  have a: "accumulated (window log (Repo (plan t))) = 15 * 2 ^ 30 - 1"
    using sb bf sm5 by (simp add: accumulated_def)
  show "10 * 2 ^ 30 <s accumulated (window log (Repo (plan t)))"
    unfolding a by (simp add: word_sless_alt)
  show "shouldRun t log = (True, None)"
    using shouldRun_eq [OF assms, of t] unfolding a
    by (simp add: word_sless_alt sint_statBytesThreshold)
qed

text \<open>
  A stats operation newer than one backup, and a stats operation older than five backups
  of 3 GiB.
\<close>

theorem scan_stops_at_baseline_witness:
  "iterate_fault (logOf [backupOp GiB, statsOp]) = None
   \<and> filter settled (window (logOf [backupOp GiB, statsOp]) ''r1'') = statsOp # [backupOp GiB]
   \<and> isStats statsOp
   \<and> shouldRun exampleTask (logOf [backupOp GiB, statsOp]) = (False, None)
   \<and> iterate_fault (logOf (statsOp # replicate 5 (backupOp (3 * 2 ^ 30)))) = None
   \<and> filter settled (window (logOf (statsOp # replicate 5 (backupOp (3 * 2 ^ 30)))) ''r1'')
       = replicate 5 (backupOp (3 * 2 ^ 30)) @ statsOp # []
   \<and> shouldRun exampleTask (logOf (statsOp # replicate 5 (backupOp (3 * 2 ^ 30)))) = (True, None)"
proof -
  let ?A = "logOf [backupOp GiB, statsOp]"
  let ?B = "logOf (statsOp # replicate 5 (backupOp (3 * 2 ^ 30)))"
  have r: "Repo (plan exampleTask) = ''r1''"
    by (simp add: exampleTask_def NewOneoffStatsTask_def examplePlan_def)
  have a1: "iterate_fault ?A = None" and b1: "iterate_fault ?B = None"
    by (simp_all add: logOf_def)
  have a2: "filter settled (window ?A ''r1'') = statsOp # [backupOp GiB]"
    by code_simp
  have st: "isStats statsOp"
    by code_simp
  have b2: "filter settled (window ?B ''r1'') = replicate 5 (backupOp (3 * 2 ^ 30)) @ statsOp # []"
    by code_simp
  have b3: "length (replicate 5 (backupOp (3 * 2 ^ 30))) = 5"
    by simp
  have b4: "\<forall>b\<in>set (replicate 5 (backupOp (3 * 2 ^ 30))).
              Op b = Operation_OperationBackup (Some (BackupProgressEntry_Summary (3 * 2 ^ 30)))"
    by (simp add: backupOp_def mkOp_def)
  have wa: "shouldRun exampleTask ?A = (False, None)"
    using scan_stops_at_baseline [OF a1, of exampleTask] a2 st unfolding r by blast
  have wb: "shouldRun exampleTask ?B = (True, None)"
    using scan_stops_at_baseline [OF b1, of exampleTask] b2 b3 b4 st unfolding r by blast
  from a1 a2 st wa b1 b2 wb show ?thesis by blast
qed

text \<open>
  C3 as stated fails: on the log of Scenario B, five backups of 3 GiB and then a stats
  operation as the most recent entry, the scan ends at the stats operation with an
  accumulator of 0, and the decision is false.
\<close>

theorem scan_stops_at_baseline_counterexample:
  "shouldRun exampleTask (logOf (replicate 5 (backupOp (3 * GiB)) @ [statsOp])) = (False, None)
   \<and> accumulated (window (logOf (replicate 5 (backupOp (3 * GiB)) @ [statsOp])) ''r1'') = 0
   \<and> scanned (window (logOf (replicate 5 (backupOp (3 * GiB)) @ [statsOp])) ''r1'') = 1"
  by code_simp

subsection \<open>The window\<close>





section \<open>Polling\<close>

lemma Name_at [simp]: "Name (t\<lparr>at := a\<rparr>) = Name t"
  by (simp add: Name_def)

lemma shouldRun_at [simp]: "shouldRun (t\<lparr>at := a\<rparr>) log = shouldRun t log"
  by (simp add: shouldRun_def)

lemma Next_Some:
  assumes "at t = Some ret"
  shows "Next now t orch =
     (let r = shouldRun t (OpLog orch);
          orch1 = (case snd r of
                     Some err \<Rightarrow>
                       Errorf orch (lit ''task '' @ Name t @
                         lit '' failed to check if it should run: '' @ error_text err)
                   | None \<Rightarrow> orch)
      in if \<not> fst r then (None, t\<lparr>at := None\<rparr>, orch1)
         else (case append_fault (OpLog orch) of
                 Some err \<Rightarrow>
                   (None, t\<lparr>at := None\<rparr>,
                    Errorf orch1 (lit ''task '' @ Name t @
                       lit '' failed to add operation to oplog: '' @ error_text err))
               | None \<Rightarrow>
                   (Some ret, t\<lparr>at := None, op := Some (newStatsOperation t ret)\<rparr>,
                    orch1\<lparr>OpLog := (OpLog orch)\<lparr>records := records (OpLog orch)
                              @ [newStatsOperation t ret]\<rparr>\<rparr>)))"
  using assms
  by (auto simp add: Next_def Let_def setOperation_def Add_def newStatsOperation_def Errorf_def
      split: option.splits prod.splits)

lemma Next_at: "at (fst (snd (Next now t orch))) = None"
proof (cases "at t")
  case None
  then show ?thesis by (simp add: Next_def)
next
  case (Some ret)
  show ?thesis
    unfolding Next_Some [OF Some] by (simp add: Let_def split: option.splits)
qed

text \<open>
  C5. The scheduled instant is consumed exactly once per poll: with an empty slot the
  poll returns nil and changes nothing, neither the task nor the log nor what was logged
  or dispatched; with the slot set, the slot is empty after the poll whatever the
  decision was and whether or not the decision or the append failed; a second poll
  without a schedule in between returns nil and changes nothing.
\<close>

theorem Next_consumes_slot:
  "(at t = None \<longrightarrow> Next now t orch = (None, t, orch))
   \<and> at (fst (snd (Next now t orch))) = None
   \<and> Next now' (fst (snd (Next now t orch))) (snd (snd (Next now t orch)))
       = (None, fst (snd (Next now t orch)), snd (snd (Next now t orch)))"
proof -
  have a: "Next n u o' = (None, u, o')" if "at u = None" for n u o'
    using that by (simp add: Next_def)
  show ?thesis
    using a Next_at by blast
qed

text \<open>
  Polls of a task scheduled at 1000: on a log without entries (the run is due), on a log
  whose newest entry is a stats operation (not due), on a log that cannot be iterated and
  on a log that cannot be appended to.
\<close>

theorem Next_consumes_slot_witness:
  "at (exampleTask\<lparr>at := None\<rparr>) = None
   \<and> Next 5 (exampleTask\<lparr>at := None\<rparr>) (exampleOrch (logOf []))
       = (None, exampleTask\<lparr>at := None\<rparr>, exampleOrch (logOf []))
   \<and> at exampleTask = Some 1000
   \<and> fst (Next 5 exampleTask (exampleOrch (logOf []))) = Some 1000
   \<and> at (fst (snd (Next 5 exampleTask (exampleOrch (logOf []))))) = None
   \<and> fst (Next 6 (fst (snd (Next 5 exampleTask (exampleOrch (logOf [])))))
                  (snd (snd (Next 5 exampleTask (exampleOrch (logOf [])))))) = None
   \<and> fst (Next 5 exampleTask (exampleOrch (logOf [statsOp]))) = None
   \<and> at (fst (snd (Next 5 exampleTask (exampleOrch (logOf [statsOp]))))) = None
   \<and> fst (Next 5 exampleTask (exampleOrch faultyLog)) = None
   \<and> at (fst (snd (Next 5 exampleTask (exampleOrch faultyLog)))) = None
   \<and> fst (Next 5 exampleTask (exampleOrch fullLog)) = None
   \<and> at (fst (snd (Next 5 exampleTask (exampleOrch fullLog)))) = None"
proof -
  have a: "at (exampleTask\<lparr>at := None\<rparr>) = None" by simp
  have b: "at exampleTask = Some 1000"
    by (simp add: exampleTask_def NewOneoffStatsTask_def)
  have o1: "fst (Next 5 exampleTask (exampleOrch (logOf []))) = Some 1000"
    and o2: "fst (Next 5 exampleTask (exampleOrch (logOf [statsOp]))) = None"
    and o3: "fst (Next 5 exampleTask (exampleOrch faultyLog)) = None"
    and o4: "fst (Next 5 exampleTask (exampleOrch fullLog)) = None"
    by code_simp+
  have c: "Next 5 (exampleTask\<lparr>at := None\<rparr>) (exampleOrch (logOf []))
       = (None, exampleTask\<lparr>at := None\<rparr>, exampleOrch (logOf []))"
    using Next_consumes_slot [of "exampleTask\<lparr>at := None\<rparr>" 5 "exampleOrch (logOf [])"] a
    by blast
  have d: "fst (Next 6 (fst (snd (Next 5 exampleTask (exampleOrch (logOf [])))))
                  (snd (snd (Next 5 exampleTask (exampleOrch (logOf [])))))) = None"
    using Next_consumes_slot [of exampleTask 5 "exampleOrch (logOf [])" 6] by simp
  show ?thesis
    using a b c d o1 o2 o3 o4
      Next_consumes_slot [of exampleTask 5 "exampleOrch (logOf [])" 6]
      Next_consumes_slot [of exampleTask 5 "exampleOrch (logOf [statsOp])" 6]
      Next_consumes_slot [of exampleTask 5 "exampleOrch faultyLog" 6]
      Next_consumes_slot [of exampleTask 5 "exampleOrch fullLog" 6]
    by blast
qed

text \<open>
  C9. When the iteration of the log fails during a poll, the error is logged and the
  cycle is skipped: the poll returns nil, the task holds no new operation, the log is
  unchanged, and the slot stays empty, so that nothing is retried or rescheduled.
\<close>

theorem Next_iteration_error:
  assumes "iterate_fault (OpLog orch) = Some e" and "at t = Some i"
  shows "Next now t orch =
           (None, t\<lparr>at := None\<rparr>,
            orch\<lparr>zap_errors := zap_errors orch @
              [lit ''task '' @ Name t @ lit '' failed to check if it should run: '' @
               lit ''iterate oplog: '' @ error_text e]\<rparr>)"
  unfolding Next_Some [OF assms(2)] shouldRun_fault [OF assms(1)]
  by (simp add: Errorf_def)

text \<open>A poll of a task scheduled at 1000 on a log whose iteration fails.\<close>

theorem Next_iteration_error_witness:
  "iterate_fault (OpLog (exampleOrch faultyLog)) = Some (ErrorString ''bucket closed'')
   \<and> at exampleTask = Some 1000
   \<and> fst (Next 5 exampleTask (exampleOrch faultyLog)) = None
   \<and> op (fst (snd (Next 5 exampleTask (exampleOrch faultyLog)))) = None
   \<and> records (OpLog (snd (snd (Next 5 exampleTask (exampleOrch faultyLog))))) = []
   \<and> zap_errors (snd (snd (Next 5 exampleTask (exampleOrch faultyLog))))
       = [lit ''task '' @ Name exampleTask @ lit '' failed to check if it should run: '' @
          lit ''iterate oplog: '' @ lit ''bucket closed'']"
proof -
  have a: "iterate_fault (OpLog (exampleOrch faultyLog)) = Some (ErrorString ''bucket closed'')"
    by (simp add: exampleOrch_def orchOf_def faultyLog_def)
  have b: "at exampleTask = Some 1000"
    by (simp add: exampleTask_def NewOneoffStatsTask_def)
  show ?thesis
    using a b Next_iteration_error [OF a b, of 5]
    by (simp add: exampleOrch_def orchOf_def faultyLog_def logOf_def exampleTask_def
        NewOneoffStatsTask_def)
qed

text \<open>
  C10. The poll does not depend on its argument \<open>now\<close>: two polls of the same state at
  any two times return the same instant and leave the same state; the instant returned is
  nil or the scheduled instant; and when an instant is returned, the operation appended to
  the log and held by the task has the scheduled instant as its start time. An instant
  that lies after the time of the poll is consumed and acted on like any other.
\<close>

theorem Next_ignores_now:
  "Next now t orch = Next now' t orch
   \<and> (fst (Next now t orch) = None \<or> fst (Next now t orch) = at t)
   \<and> (\<forall>i. fst (Next now t orch) = Some i \<longrightarrow>
         at t = Some i
         \<and> op (fst (snd (Next now t orch))) = Some (newStatsOperation t i)
         \<and> UnixTimeStartMs (newStatsOperation t i) = timeToUnixMillis i
         \<and> records (OpLog (snd (snd (Next now t orch))))
             = records (OpLog orch) @ [newStatsOperation t i])"
proof (cases "at t")
  case None
  then show ?thesis by (simp add: Next_def)
next
  case (Some ret)
  have "Next now t orch = Next now' t orch"
    by (simp add: Next_def)
  moreover have "fst (Next now t orch) = None \<or> fst (Next now t orch) = at t"
    unfolding Next_Some [OF Some] using Some by (simp add: Let_def split: option.splits)
  moreover have "at t = Some i
         \<and> op (fst (snd (Next now t orch))) = Some (newStatsOperation t i)
         \<and> UnixTimeStartMs (newStatsOperation t i) = timeToUnixMillis i
         \<and> records (OpLog (snd (snd (Next now t orch))))
             = records (OpLog orch) @ [newStatsOperation t i]"
    if "fst (Next now t orch) = Some i" for i
    using that Some unfolding Next_Some [OF Some]
    by (auto simp add: Let_def newStatsOperation_def Errorf_def split: option.splits if_splits)
  ultimately show ?thesis by blast
qed

text \<open>A task scheduled at 1000, polled at 5 and polled at 2000.\<close>

theorem Next_ignores_now_witness:
  "Next 5 exampleTask (exampleOrch (logOf [])) = Next 2000 exampleTask (exampleOrch (logOf []))
   \<and> fst (Next 5 exampleTask (exampleOrch (logOf []))) = Some 1000
   \<and> at exampleTask = Some 1000
   \<and> UnixTimeStartMs (newStatsOperation exampleTask 1000) = 1000
   \<and> records (OpLog (snd (snd (Next 5 exampleTask (exampleOrch (logOf []))))))
       = [newStatsOperation exampleTask 1000]"
proof -
  have o1: "fst (Next 5 exampleTask (exampleOrch (logOf []))) = Some 1000"
    by code_simp
  have r: "records (OpLog (exampleOrch (logOf []))) = []"
    by (simp add: exampleOrch_def orchOf_def logOf_def)
  have m: "timeToUnixMillis 1000 = 1000"
    by (simp add: timeToUnixMillis_def)
  note n = Next_ignores_now [of 5 exampleTask "exampleOrch (logOf [])" 2000]
  have n1: "Next 5 exampleTask (exampleOrch (logOf []))
              = Next 2000 exampleTask (exampleOrch (logOf []))"
    by (rule n [THEN conjunct1])
  note n3 = n [THEN conjunct2, THEN conjunct2, rule_format, OF o1]
  have n4: "at exampleTask = Some 1000"
    by (rule n3 [THEN conjunct1])
  have n5: "UnixTimeStartMs (newStatsOperation exampleTask 1000) = 1000"
    using n3 [THEN conjunct2, THEN conjunct2, THEN conjunct1] unfolding m .
  have n6: "records (OpLog (snd (snd (Next 5 exampleTask (exampleOrch (logOf []))))))
       = [newStatsOperation exampleTask 1000]"
    using n3 [THEN conjunct2, THEN conjunct2, THEN conjunct2] unfolding r append_Nil .
  from n1 o1 n4 n5 n6 show ?thesis by (intro conjI)
qed

section \<open>Running\<close>

lemma Name_op [simp]: "Name (t\<lparr>op := a\<rparr>) = Name t"
  by (simp add: Name_def)

lemma Run_action_unresolved:
  assumes "repos orch (Repo (plan t)) = Inl e"
  shows "Run_action t x orch =
     (Some (WrapError (lit ''get repo '' @ fmt_q (Repo (plan t)) @ lit '': '') e), x,
      orch\<lparr>resolutions := resolutions orch @ [Repo (plan t)]\<rparr>)"
  using assms by (simp add: Run_action_def GetRepo_def)

lemma Run_action_stats_failed:
  assumes "repos orch (Repo (plan t)) = Inr h" and "Stats h = Inl e"
  shows "Run_action t x orch =
     (Some (WrapError (lit ''get stats: '') e), x,
      orch\<lparr>resolutions := resolutions orch @ [Repo (plan t)]\<rparr>)"
  using assms by (simp add: Run_action_def GetRepo_def)

lemma Run_of_failed_action:
  assumes "Retention (plan t) \<noteq> None" and "op t = Some x"
    and "Run_action t (x\<lparr>Status := STATUS_INPROGRESS\<rparr>) orch =
           (Some err, x\<lparr>Status := STATUS_INPROGRESS\<rparr>,
            orch\<lparr>resolutions := resolutions orch @ [Repo (plan t)]\<rparr>)"
  shows "Run t orch =
     (Some err,
      t\<lparr>op := Some (x\<lparr>Status := STATUS_ERROR, DisplayMessage := error_text err\<rparr>)\<rparr>,
      orch\<lparr>resolutions := resolutions orch @ [Repo (plan t), Repo (plan t)],
           hooks := hooks orch @
             [hookCall (Config (case repos orch (Repo (plan t)) of
                                  Inl _ \<Rightarrow> None | Inr h \<Rightarrow> Some h)) t err]\<rparr>)"
proof -
  from assms(1) obtain y where "Retention (plan t) = Some y" by auto
  then show ?thesis
    using assms(2,3)
    by (simp add: Run_def runWithOpAndContext_def GetRepo_def ExecuteHooks_def hookCall_def)
qed

text \<open>
  C7. When the plan has a retention policy, the task holds an operation, and either the
  repository cannot be resolved or its statistics cannot be gathered, \<open>Run\<close> marks the
  operation as failed with the text of the error, dispatches one hook, with the single
  condition "any error", the name of the task and the text of the error, and returns the
  error, which wraps the failure.
\<close>

theorem Run_failure_dispatches_hook:
  assumes "Retention (plan t) \<noteq> None" and "op t = Some x"
    and "repos orch (Repo (plan t)) = Inl e
           \<and> err = WrapError (lit ''get repo '' @ fmt_q (Repo (plan t)) @ lit '': '') e
           \<and> cfg = None
         \<or> (\<exists>h. repos orch (Repo (plan t)) = Inr h \<and> Stats h = Inl e
                \<and> err = WrapError (lit ''get stats: '') e \<and> cfg = Some (repoConfig h))"
  shows "Run t orch =
     (Some err,
      t\<lparr>op := Some (x\<lparr>Status := STATUS_ERROR, DisplayMessage := error_text err\<rparr>)\<rparr>,
      orch\<lparr>resolutions := resolutions orch @ [Repo (plan t), Repo (plan t)],
           hooks := hooks orch @
             [\<lparr>hook_repo = cfg, hook_plan = plan t, hook_snapshot = [],
               hook_conditions = [CONDITION_ANY_ERROR],
               hook_vars = \<lparr>Task = Name t, Error = error_text err\<rparr>\<rparr>]\<rparr>)"
  using assms(3)
proof (elim disjE conjE exE)
  assume h: "repos orch (Repo (plan t)) = Inl e"
    "err = WrapError (lit ''get repo '' @ fmt_q (Repo (plan t)) @ lit '': '') e" "cfg = None"
  show ?thesis
    using Run_of_failed_action [OF assms(1,2), of orch err] Run_action_unresolved [OF h(1)] h
    by (simp add: hookCall_def Config_def)
next
  fix h
  assume h: "repos orch (Repo (plan t)) = Inr h" "Stats h = Inl e"
    "err = WrapError (lit ''get stats: '') e" "cfg = Some (repoConfig h)"
  show ?thesis
    using Run_of_failed_action [OF assms(1,2), of orch err] Run_action_stats_failed [OF h(1,2)] h
    by (simp add: hookCall_def Config_def)
qed

text \<open>A repository whose statistics fail, and a repository that cannot be resolved.\<close>

theorem Run_failure_dispatches_hook_witness:
  "Retention (plan runningTask) \<noteq> None
   \<and> op runningTask = Some (newStatsOperation exampleTask 1000)
   \<and> repos failingOrch (Repo (plan runningTask)) = Inr failingRepo
   \<and> Stats failingRepo = Inl (ErrorString ''exit status 1'')
   \<and> fst (Run runningTask failingOrch)
       = Some (WrapError (lit ''get stats: '') (ErrorString ''exit status 1''))
   \<and> map_option Status (op (fst (snd (Run runningTask failingOrch)))) = Some STATUS_ERROR
   \<and> hooks (snd (snd (Run runningTask failingOrch)))
       = [\<lparr>hook_repo = Some (repoConfig failingRepo), hook_plan = examplePlan,
           hook_snapshot = [], hook_conditions = [CONDITION_ANY_ERROR],
           hook_vars = \<lparr>Task = Name runningTask, Error = lit ''get stats: '' @ lit ''exit status 1''\<rparr>\<rparr>]
   \<and> repos unresolvedOrch (Repo (plan runningTask)) = Inl (ErrorString ''repo not found'')
   \<and> fst (Run runningTask unresolvedOrch)
       = Some (WrapError (lit ''get repo '' @ fmt_q ''r1'' @ lit '': '') (ErrorString ''repo not found''))
   \<and> length (hooks (snd (snd (Run runningTask unresolvedOrch)))) = 1"
proof -
  have a: "Retention (plan runningTask) \<noteq> None"
    and b: "op runningTask = Some (newStatsOperation exampleTask 1000)"
    and p: "plan runningTask = examplePlan"
    and r: "Repo (plan runningTask) = ''r1''"
    by (simp_all add: runningTask_def exampleTask_def NewOneoffStatsTask_def examplePlan_def)
  have c: "repos failingOrch (Repo (plan runningTask)) = Inr failingRepo"
    and h0: "hooks failingOrch = []"
    by (simp_all add: failingOrch_def orchOf_def)
  have d: "Stats failingRepo = Inl (ErrorString ''exit status 1'')"
    by (simp add: failingRepo_def)
  have e: "repos unresolvedOrch (Repo (plan runningTask)) = Inl (ErrorString ''repo not found'')"
    and h1: "hooks unresolvedOrch = []"
    by (simp_all add: unresolvedOrch_def orchOf_def)
  have w1: "Run runningTask failingOrch =
     (Some (WrapError (lit ''get stats: '') (ErrorString ''exit status 1'')),
      runningTask\<lparr>op := Some ((newStatsOperation exampleTask 1000)
        \<lparr>Status := STATUS_ERROR,
         DisplayMessage := error_text (WrapError (lit ''get stats: '') (ErrorString ''exit status 1''))\<rparr>)\<rparr>,
      failingOrch\<lparr>resolutions := resolutions failingOrch
          @ [Repo (plan runningTask), Repo (plan runningTask)],
        hooks := hooks failingOrch @
          [\<lparr>hook_repo = Some (repoConfig failingRepo), hook_plan = plan runningTask,
            hook_snapshot = [], hook_conditions = [CONDITION_ANY_ERROR],
            hook_vars = \<lparr>Task = Name runningTask,
              Error = error_text (WrapError (lit ''get stats: '') (ErrorString ''exit status 1''))\<rparr>\<rparr>]\<rparr>)"
    using c d by (intro Run_failure_dispatches_hook [OF a b]) blast
  have w2: "Run runningTask unresolvedOrch =
     (Some (WrapError (lit ''get repo '' @ fmt_q (Repo (plan runningTask)) @ lit '': '')
        (ErrorString ''repo not found'')),
      runningTask\<lparr>op := Some ((newStatsOperation exampleTask 1000)
        \<lparr>Status := STATUS_ERROR,
         DisplayMessage := error_text (WrapError (lit ''get repo '' @ fmt_q (Repo (plan runningTask)) @ lit '': '')
        (ErrorString ''repo not found''))\<rparr>)\<rparr>,
      unresolvedOrch\<lparr>resolutions := resolutions unresolvedOrch
          @ [Repo (plan runningTask), Repo (plan runningTask)],
        hooks := hooks unresolvedOrch @
          [\<lparr>hook_repo = None, hook_plan = plan runningTask,
            hook_snapshot = [], hook_conditions = [CONDITION_ANY_ERROR],
            hook_vars = \<lparr>Task = Name runningTask,
              Error = error_text (WrapError (lit ''get repo '' @ fmt_q (Repo (plan runningTask)) @ lit '': '')
        (ErrorString ''repo not found''))\<rparr>\<rparr>]\<rparr>)"
    using e by (intro Run_failure_dispatches_hook [OF a b]) blast
  show ?thesis
    unfolding w1 w2 using a b c d e by (simp add: h0 h1 p r examplePlan_def)
qed

text \<open>
  C6. When the plan has a retention policy and the repository cannot be resolved, the
  hook is dispatched all the same, with no repository configuration, and \<open>Run\<close> returns
  the error whose text the hook was given: the error of the resolution, wrapped, when the
  task holds an operation.
\<close>

theorem Run_unresolved_repo:
  assumes "Retention (plan t) \<noteq> None" and "repos orch (Repo (plan t)) = Inl e"
  shows "\<exists>err. fst (Run t orch) = Some err
           \<and> (op t \<noteq> None \<longrightarrow>
                err = WrapError (lit ''get repo '' @ fmt_q (Repo (plan t)) @ lit '': '') e)
           \<and> hooks (snd (snd (Run t orch))) = hooks orch @
                [\<lparr>hook_repo = None, hook_plan = plan t, hook_snapshot = [],
                  hook_conditions = [CONDITION_ANY_ERROR],
                  hook_vars = \<lparr>Task = Name t, Error = error_text err\<rparr>\<rparr>]"
proof (cases "op t")
  case None
  moreover from assms(1) obtain y where "Retention (plan t) = Some y" by auto
  ultimately show ?thesis
    using assms(2)
    by (simp add: Run_def runWithOpAndContext_def GetRepo_def ExecuteHooks_def Config_def)
next
  case (Some x)
  show ?thesis
    using Run_of_failed_action [OF assms(1) Some Run_action_unresolved [OF assms(2)]] assms(2) Some
    by (simp add: hookCall_def Config_def)
qed

text \<open>A task that holds an operation, and a repository that cannot be resolved.\<close>

theorem Run_unresolved_repo_witness:
  "Retention (plan runningTask) \<noteq> None
   \<and> repos unresolvedOrch (Repo (plan runningTask)) = Inl (ErrorString ''repo not found'')
   \<and> (\<exists>err. fst (Run runningTask unresolvedOrch) = Some err
         \<and> map hook_repo (hooks (snd (snd (Run runningTask unresolvedOrch)))) = [None]
         \<and> map (Error \<circ> hook_vars) (hooks (snd (snd (Run runningTask unresolvedOrch))))
              = [error_text err])"
proof -
  have a: "Retention (plan runningTask) \<noteq> None"
    by (simp add: runningTask_def exampleTask_def NewOneoffStatsTask_def examplePlan_def)
  have e: "repos unresolvedOrch (Repo (plan runningTask)) = Inl (ErrorString ''repo not found'')"
    and h1: "hooks unresolvedOrch = []"
    by (simp_all add: unresolvedOrch_def orchOf_def)
  from Run_unresolved_repo [OF a e] obtain err where
    "fst (Run runningTask unresolvedOrch) = Some err"
    "hooks (snd (snd (Run runningTask unresolvedOrch))) = hooks unresolvedOrch @
                [\<lparr>hook_repo = None, hook_plan = plan runningTask, hook_snapshot = [],
                  hook_conditions = [CONDITION_ANY_ERROR],
                  hook_vars = \<lparr>Task = Name runningTask, Error = error_text err\<rparr>\<rparr>]"
    by blast
  then have "\<exists>err. fst (Run runningTask unresolvedOrch) = Some err
         \<and> map hook_repo (hooks (snd (snd (Run runningTask unresolvedOrch)))) = [None]
         \<and> map (Error \<circ> hook_vars) (hooks (snd (snd (Run runningTask unresolvedOrch))))
              = [error_text err]"
    by (intro exI [of _ err]) (simp add: h1)
  with a e show ?thesis by (intro conjI)
qed

text \<open>
  C8. When the plan has no retention policy, \<open>Run\<close> returns a configuration error at
  once: the task and its operation are unchanged, and so is the orchestrator, in which no
  repository has been resolved and no hook dispatched.
\<close>

theorem Run_without_retention:
  assumes "Retention (plan t) = None"
  shows "Run t orch = (Some (ErrorString ''plan does not have a retention policy''), t, orch)"
  using assms by (simp add: Run_def)

text \<open>A task whose plan has no retention policy, before any repository was resolved.\<close>

theorem Run_without_retention_witness:
  "Retention (plan noRetentionTask) = None
   \<and> fst (Run noRetentionTask unresolvedOrch)
       = Some (ErrorString ''plan does not have a retention policy'')
   \<and> fst (snd (Run noRetentionTask unresolvedOrch)) = noRetentionTask
   \<and> resolutions (snd (snd (Run noRetentionTask unresolvedOrch))) = []
   \<and> hooks (snd (snd (Run noRetentionTask unresolvedOrch))) = []"
proof -
  have a: "Retention (plan noRetentionTask) = None"
    by (simp add: noRetentionTask_def)
  show ?thesis
    unfolding Run_without_retention [OF a, of unresolvedOrch]
    using a by (simp add: unresolvedOrch_def orchOf_def)
qed

end
